theory Spec2Isabelle
  imports Main "HOL-Library.AList"
begin

section \<open>Python values\<close>

text \<open>
  The deployment state, the checkpoint metadata and the loaded configuration are Python
  dictionaries of arbitrary values.  A value is \<open>None\<close>, a bool, an int, a float, a
  string, a list, a tuple, a set, a dict, or an object of some other class.  Floats are
  never computed with here, so a float is carried as the text \<open>repr\<close> gives for it; an
  object of another class is carried as the text \<open>str\<close> gives for it.  A dict is an
  association list in insertion order whose keys are pairwise different; a key is a
  hashable value.  Strings are lists of 8-bit characters, so \<open>lower\<close> and \<open>strip\<close>
  below are the ASCII part of the Python methods.
\<close>

datatype pykey =
    KNone
  | KBool bool
  | KInt int
  | KFloat string
  | KStr string
  | KObj string

datatype pyval =
    PNone
  | PBool bool
  | PInt int
  | PFloat string
  | PStr string
  | PList "pyval list"
  | PTuple "pyval list"
  | PSet "pyval list"
  | PDict "(pykey \<times> pyval) list"
  | PObj string

type_synonym pydict = "(pykey \<times> pyval) list"

text \<open>
  Exceptions: \<open>AttributeError\<close> and \<open>TypeError\<close> are raised by the code embedded here;
  \<open>CallbackError\<close> stands for whatever a redeploy callback raises.
\<close>

datatype exn = AttributeError | TypeError | CallbackError

text \<open>\<open>d[k] = v\<close>: an existing key keeps its position, a new key goes last.\<close>

definition dict_setitem :: "('k \<times> 'v) list \<Rightarrow> 'k \<Rightarrow> 'v \<Rightarrow> ('k \<times> 'v) list" where
  "dict_setitem d k v = AList.update k v d"

text \<open>\<open>d.update(other)\<close> and the dict built by a comprehension: items are stored one by one.\<close>

definition dict_update :: "('k \<times> 'v) list \<Rightarrow> ('k \<times> 'v) list \<Rightarrow> ('k \<times> 'v) list" where
  "dict_update d other = foldl (\<lambda>acc kv. dict_setitem acc (fst kv) (snd kv)) d other"

definition dict_of_items :: "('k \<times> 'v) list \<Rightarrow> ('k \<times> 'v) list" where
  "dict_of_items items = dict_update [] items"

text \<open>\<open>d.get(k)\<close>, with \<open>None\<close> for a missing key.\<close>

definition dict_get :: "pydict \<Rightarrow> pykey \<Rightarrow> pyval" where
  "dict_get d k = (case map_of d k of None \<Rightarrow> PNone | Some v \<Rightarrow> v)"

text \<open>Truth value of a Python value, as \<open>if v:\<close> and \<open>not v\<close> test it.\<close>

fun truthy :: "pyval \<Rightarrow> bool" where
  "truthy PNone = False"
| "truthy (PBool b) = b"
| "truthy (PInt i) = (i \<noteq> 0)"
| "truthy (PFloat r) = (r \<noteq> ''0.0'' \<and> r \<noteq> ''-0.0'')"
| "truthy (PStr s) = (s \<noteq> [])"
| "truthy (PList xs) = (xs \<noteq> [])"
| "truthy (PTuple xs) = (xs \<noteq> [])"
| "truthy (PSet xs) = (xs \<noteq> [])"
| "truthy (PDict d) = (d \<noteq> [])"
| "truthy (PObj r) = True"

definition to_lower :: "char \<Rightarrow> char" where
  "to_lower c =
     (case map_of (zip ''ABCDEFGHIJKLMNOPQRSTUVWXYZ'' ''abcdefghijklmnopqrstuvwxyz'') c of
        Some l \<Rightarrow> l
      | None \<Rightarrow> c)"

definition lower :: "string \<Rightarrow> string" where
  "lower s = map to_lower s"

definition is_space :: "char \<Rightarrow> bool" where
  "is_space c = ((of_char c :: nat) \<in> {9, 10, 11, 12, 13, 28, 29, 30, 31, 32})"

definition strip :: "string \<Rightarrow> string" where
  "strip s = rev (dropWhile is_space (rev (dropWhile is_space s)))"

definition endswith :: "string \<Rightarrow> string \<Rightarrow> bool" where
  "endswith s suf = (length suf \<le> length s \<and> drop (length s - length suf) s = suf)"

function digits :: "nat \<Rightarrow> string" where
  "digits n = (if n < 10 then [''0123456789'' ! n] else digits (n div 10) @ [''0123456789'' ! (n mod 10)])"
  by pat_completeness auto
termination
  by (relation "measure id") auto

definition str_of_int :: "int \<Rightarrow> string" where
  "str_of_int i = (if i < 0 then CHR ''-'' # digits (nat (- i)) else digits (nat i))"

text \<open>\<open>str(k)\<close> for a dict key.\<close>

fun key_str :: "pykey \<Rightarrow> string" where
  "key_str KNone = ''None''"
| "key_str (KBool b) = (if b then ''True'' else ''False'')"
| "key_str (KInt i) = str_of_int i"
| "key_str (KFloat r) = r"
| "key_str (KStr s) = s"
| "key_str (KObj r) = r"

subsection \<open>\<open>RollbackManager._make_json_safe\<close>\<close>

fun make_json_safe :: "pyval \<Rightarrow> pyval" where
  "make_json_safe PNone = PNone"
| "make_json_safe (PBool b) = PBool b"
| "make_json_safe (PInt i) = PInt i"
| "make_json_safe (PFloat r) = PFloat r"
| "make_json_safe (PStr s) = PStr s"
| "make_json_safe (PDict items) =
     PDict (dict_of_items (map (\<lambda>kv. (KStr (key_str (fst kv)), make_json_safe (snd kv))) items))"
| "make_json_safe (PList xs) = PList (map make_json_safe xs)"
| "make_json_safe (PTuple xs) = PList (map make_json_safe xs)"
| "make_json_safe (PSet xs) = PList (map make_json_safe xs)"
| "make_json_safe (PObj r) = PStr r"

section \<open>The project directory and the checkpoint history\<close>

text \<open>
  The project directory as \<open>scripts/rollback.py\<close> sees it.  A project file is named by
  the directories on its path below the project root and its file name.  The history
  directory \<open>.deployment\<close> holds the sidecar records \<open>{id}.json\<close>, each with its
  modification time (in ticks of the file system's clock) and its content (\<open>None\<close> when the content is not a JSON document);
  its subdirectory \<open>artifacts\<close> holds the archives \<open>{id}.zip\<close>, each a list of the
  files stored in it.  Both lists are in directory order, which is the order \<open>glob\<close>
  yields; within one directory the names are pairwise different.
\<close>

type_synonym file_name = "string list \<times> string"
type_synonym tree = "(file_name \<times> string) list"

record fs =
  files :: tree
  dep_dir :: bool
  sidecars :: "(string \<times> nat \<times> pyval option) list"
  art_dir :: bool
  artifacts :: "(string \<times> tree) list"

definition EXCLUDED_DIRS :: "string list" where
  "EXCLUDED_DIRS = [''.deployment'', ''.git'', ''.venv'', ''__pycache__'']"

text \<open>
  What the environment answers while one checkpoint is created: the two clock readings,
  the commit \<open>git rev-parse HEAD\<close> prints (if any), the modification time the written
  sidecar gets, and which file-system operation fails, if one does.
\<close>

datatype snapshot_fault = ArtifactsMkdirFails | ArchiveOpenFails | ArchiveWriteFails nat
datatype write_fault = SidecarOpenFails | SidecarDumpFails

record ckpt_io =
  id_stamp :: string
  iso_time :: string
  git_commit :: "string option"
  sidecar_mtime :: nat
  mkdir_fault :: bool
  snapshot_fault :: "snapshot_fault option"
  write_fault :: "write_fault option"

subsection \<open>Internal helpers\<close>

definition generate_deployment_id :: "ckpt_io \<Rightarrow> string \<Rightarrow> string" where
  "generate_deployment_id io platform = lower platform @ ''_'' @ id_stamp io"

text \<open>
  The walk of \<open>_create_project_snapshot\<close> stores a file when no directory on its path is
  an excluded one and its name does not end in \<open>.pyc\<close> or \<open>.pyo\<close>.
\<close>

definition archivable :: "file_name \<Rightarrow> bool" where
  "archivable f =
     (list_all (\<lambda>part. part \<notin> set EXCLUDED_DIRS) (fst f)
      \<and> \<not> (endswith (snd f) ''.pyc'' \<or> endswith (snd f) ''.pyo''))"

definition snapshot_entries :: "tree \<Rightarrow> tree" where
  "snapshot_entries t = filter (\<lambda>e. archivable (fst e)) t"

definition artifact_rel_path :: "string \<Rightarrow> string" where
  "artifact_rel_path deployment_id = ''.deployment/artifacts/'' @ deployment_id @ ''.zip''"

text \<open>
  \<open>_create_project_snapshot\<close> returns the archive's project-relative path, or \<open>None\<close>
  after any failure.  A failure while files are being added leaves the archive behind
  with the files added so far.
\<close>

definition create_project_snapshot :: "ckpt_io \<Rightarrow> string \<Rightarrow> fs \<Rightarrow> string option \<times> fs" where
  "create_project_snapshot io deployment_id s =
     (case snapshot_fault io of
        Some ArtifactsMkdirFails \<Rightarrow> (None, s)
      | Some ArchiveOpenFails \<Rightarrow> (None, s\<lparr>dep_dir := True, art_dir := True\<rparr>)
      | Some (ArchiveWriteFails n) \<Rightarrow>
          (None, s\<lparr>dep_dir := True, art_dir := True,
                    artifacts := dict_setitem (artifacts s) deployment_id
                                   (take n (snapshot_entries (files s)))\<rparr>)
      | None \<Rightarrow>
          (Some (artifact_rel_path deployment_id),
           s\<lparr>dep_dir := True, art_dir := True,
              artifacts := dict_setitem (artifacts s) deployment_id
                             (snapshot_entries (files s))\<rparr>))"

text \<open>\<open>archive.extractall\<close>: every stored file is written, over the file of that name if any.\<close>

definition extractall :: "tree \<Rightarrow> tree \<Rightarrow> tree" where
  "extractall entries t = dict_update t entries"

text \<open>
  The archive a project-relative path names, if it names one.  Paths are compared in the
  form \<open>_create_project_snapshot\<close> writes them.  Any other path either does not exist
  or is not an archive of the history; \<open>_restore_snapshot\<close> returns \<open>False\<close> for both.
\<close>

definition lookup_archive :: "fs \<Rightarrow> string \<Rightarrow> tree option" where
  "lookup_archive s p = map_of (map (\<lambda>a. (artifact_rel_path (fst a), snd a)) (artifacts s)) p"

text \<open>
  \<open>_restore_snapshot\<close>.  \<open>extract_fault = Some n\<close> is an extraction that fails after
  \<open>n\<close> files.  \<open>state.get\<close> on a value that is not a dict and the path join with a value
  that is not a string raise; the caller catches both.
\<close>

definition restore_snapshot :: "nat option \<Rightarrow> pyval \<Rightarrow> fs \<Rightarrow> (exn + bool) \<times> fs" where
  "restore_snapshot extract_fault state s =
     (case state of
        PDict d \<Rightarrow>
          (let artifact_rel = dict_get d (KStr ''artifact_path'') in
           if \<not> truthy artifact_rel then (Inr False, s)
           else (case artifact_rel of
                   PStr p \<Rightarrow>
                     (case lookup_archive s p of
                        None \<Rightarrow> (Inr False, s)
                      | Some entries \<Rightarrow>
                          (case extract_fault of
                             None \<Rightarrow> (Inr True, s\<lparr>files := extractall entries (files s)\<rparr>)
                           | Some n \<Rightarrow>
                               (Inr False, s\<lparr>files := extractall (take n entries) (files s)\<rparr>)))
                 | _ \<Rightarrow> (Inl TypeError, s)))
      | _ \<Rightarrow> (Inl AttributeError, s))"

subsection \<open>Public operations of \<open>RollbackManager\<close>\<close>

text \<open>
  \<open>sorted(glob("*.json"), key=mtime, reverse=True)\<close>: a stable sort, newest first.
\<close>

definition newest_first :: "(string \<times> nat \<times> pyval option) list \<Rightarrow> (string \<times> nat \<times> pyval option) list" where
  "newest_first fl = sort_key (\<lambda>f. - int (fst (snd f))) fl"

text \<open>Python's slices \<open>xs[:k]\<close> and \<open>xs[k:]\<close>; a negative \<open>k\<close> counts from the end.\<close>

definition slice_to :: "int \<Rightarrow> 'a list \<Rightarrow> 'a list" where
  "slice_to k xs = (if 0 \<le> k then take (nat k) xs else take (length xs - nat (- k)) xs)"

definition slice_from :: "int \<Rightarrow> 'a list \<Rightarrow> 'a list" where
  "slice_from k xs = (if 0 \<le> k then drop (nat k) xs else drop (length xs - nat (- k)) xs)"

definition clean_old_deployments :: "int \<Rightarrow> fs \<Rightarrow> fs" where
  "clean_old_deployments keep_count s =
     (if \<not> dep_dir s then s
      else
        (let fl = newest_first (sidecars s);
             files_to_keep = map fst (slice_to keep_count fl);
             removed = map fst (slice_from keep_count fl);
             s1 = s\<lparr>sidecars := filter (\<lambda>f. fst f \<notin> set removed) (sidecars s)\<rparr>
         in if art_dir s1
            then s1\<lparr>artifacts := filter (\<lambda>a. fst a \<in> set files_to_keep) (artifacts s1)\<rparr>
            else s1))"

definition save_deployment_state :: "ckpt_io \<Rightarrow> string \<Rightarrow> pydict \<Rightarrow> fs \<Rightarrow> (bool \<times> pydict) \<times> fs" where
  "save_deployment_state io deployment_id state s =
     (if mkdir_fault io then ((False, state), s)
      else
        (let (artifact_path, s1) = create_project_snapshot io deployment_id (s\<lparr>dep_dir := True\<rparr>);
             state1 = (case artifact_path of
                         Some p \<Rightarrow> dict_setitem state (KStr ''artifact_path'') (PStr p)
                       | None \<Rightarrow> state);
             payload = make_json_safe (PDict state1)
         in case write_fault io of
              None \<Rightarrow>
                ((True, state1),
                 s1\<lparr>sidecars := dict_setitem (sidecars s1) deployment_id
                                   (sidecar_mtime io, Some payload)\<rparr>)
            | Some SidecarOpenFails \<Rightarrow> ((False, state1), s1)
            | Some SidecarDumpFails \<Rightarrow>
                ((False, state1),
                 s1\<lparr>sidecars := dict_setitem (sidecars s1) deployment_id
                                   (sidecar_mtime io, None)\<rparr>)))"

text \<open>The state record \<open>create_checkpoint\<close> builds before it saves it.\<close>

definition checkpoint_state :: "ckpt_io \<Rightarrow> string \<Rightarrow> pydict option \<Rightarrow> pydict" where
  "checkpoint_state io platform metadata =
     (let state = [(KStr ''id'', PStr (generate_deployment_id io platform)),
                   (KStr ''platform'', PStr (lower platform)),
                   (KStr ''timestamp'', PStr (iso_time io)),
                   (KStr ''git_commit'', (case git_commit io of None \<Rightarrow> PNone | Some c \<Rightarrow> PStr c))]
      in case metadata of
           None \<Rightarrow> state
         | Some m \<Rightarrow> if m \<noteq> [] then dict_update state m else state)"

definition create_checkpoint :: "ckpt_io \<Rightarrow> string \<Rightarrow> pydict option \<Rightarrow> fs \<Rightarrow> pydict option \<times> fs" where
  "create_checkpoint io platform metadata s =
     (let deployment_id = generate_deployment_id io platform;
          state = checkpoint_state io platform metadata;
          ((saved, state1), s1) = save_deployment_state io deployment_id state s
      in if saved then (Some state1, clean_old_deployments 5 s1) else (None, s1))"

definition get_previous_deployment :: "fs \<Rightarrow> pyval option" where
  "get_previous_deployment s =
     (if \<not> dep_dir s then None
      else (case newest_first (sidecars s) of
              [] \<Rightarrow> None
            | f # _ \<Rightarrow> snd (snd f)))"

text \<open>
  \<open>rollback_to_previous\<close>.  The callback is any action on the project and on whatever
  else (\<open>'w\<close>) it reaches; it returns a bool or raises.
\<close>

type_synonym 'w callback = "pyval \<Rightarrow> fs \<times> 'w \<Rightarrow> (exn + bool) \<times> fs \<times> 'w"

definition rollback_to_previous ::
  "'w callback option \<Rightarrow> nat option \<Rightarrow> fs \<times> 'w \<Rightarrow> bool \<times> fs \<times> 'w" where
  "rollback_to_previous deploy_callback extract_fault sw =
     (case get_previous_deployment (fst sw) of
        None \<Rightarrow> (False, sw)
      | Some previous \<Rightarrow>
          if \<not> truthy previous then (False, sw)
          else
            (case restore_snapshot extract_fault previous (fst sw) of
               (Inl e, s1) \<Rightarrow> (False, s1, snd sw)
             | (Inr False, s1) \<Rightarrow> (False, s1, snd sw)
             | (Inr True, s1) \<Rightarrow>
                 (case deploy_callback of
                    None \<Rightarrow> (True, s1, snd sw)
                  | Some cb \<Rightarrow>
                      (case cb previous (s1, snd sw) of
                         (Inl e, sw2) \<Rightarrow> (False, sw2)
                       | (Inr False, sw2) \<Rightarrow> (False, sw2)
                       | (Inr True, sw2) \<Rightarrow> (True, sw2)))))"

section \<open>Configuration validation\<close>

text \<open>
  \<open>ConfigValidator.validate\<close> of \<open>config/validator.py\<close>.  Its error messages are kept
  as values.  \<open>p.lower()\<close> on an element of a platform list that is not a string raises
  \<open>AttributeError\<close>; nothing in the validator or in its callers catches it.
\<close>

datatype config_error =
    NotADictionary
  | MissingKey string
  | InvalidPlatform string
  | InvalidPlatformInList string
  | PlatformNotStringOrList
  | AppNameNotString
  | AppNameEmpty

definition REQUIRED_KEYS :: "string list" where
  "REQUIRED_KEYS = [''platform'', ''app_name'']"

definition VALID_PLATFORMS :: "string list" where
  "VALID_PLATFORMS = [''render'', ''railway'', ''vercel'', ''heroku'', ''aws'']"

fun platform_list_errors :: "pyval list \<Rightarrow> exn + config_error list" where
  "platform_list_errors [] = Inr []"
| "platform_list_errors (PStr p # ps) =
     (case platform_list_errors ps of
        Inl e \<Rightarrow> Inl e
      | Inr errors \<Rightarrow>
          Inr ((if lower p \<notin> set VALID_PLATFORMS then [InvalidPlatformInList p] else []) @ errors))"
| "platform_list_errors (_ # ps) = Inl AttributeError"

definition platform_errors :: "pydict \<Rightarrow> exn + config_error list" where
  "platform_errors config =
     (case map_of config (KStr ''platform'') of
        None \<Rightarrow> Inr []
      | Some (PStr platform) \<Rightarrow>
          Inr (if lower platform \<notin> set VALID_PLATFORMS then [InvalidPlatform platform] else [])
      | Some (PList ps) \<Rightarrow> platform_list_errors ps
      | Some _ \<Rightarrow> Inr [PlatformNotStringOrList])"

definition app_name_errors :: "pydict \<Rightarrow> config_error list" where
  "app_name_errors config =
     (case map_of config (KStr ''app_name'') of
        None \<Rightarrow> []
      | Some (PStr app_name) \<Rightarrow> if strip app_name = [] then [AppNameEmpty] else []
      | Some _ \<Rightarrow> [AppNameNotString])"

definition validate :: "pyval \<Rightarrow> exn + bool \<times> config_error list" where
  "validate config =
     (case config of
        PDict d \<Rightarrow>
          (let missing = map MissingKey (filter (\<lambda>key. map_of d (KStr key) = None) REQUIRED_KEYS)
           in case platform_errors d of
                Inl e \<Rightarrow> Inl e
              | Inr perrors \<Rightarrow>
                  (let errors = missing @ perrors @ app_name_errors d
                   in Inr (errors = [], errors)))
      | _ \<Rightarrow> Inr (False, [NotADictionary]))"

section \<open>The deployer\<close>

text \<open>
  \<open>Deployer\<close> of \<open>main.py\<close>.  The readiness checkers, the platform deployers and the
  migrator are collaborators: each is taken by its interface, as an action on the
  project files and on the world outside (\<open>'w\<close>: remote platforms, the database, the
  clock) that returns what its interface promises.  They do not write into the
  checkpoint history.  \<open>calls\<close> is not a field of the class: it lists, in order, the
  entries into \<open>deploy\<close> and the calls made to collaborators and to the rollback manager,
  so that statements about which calls happen can be made.
\<close>

record check_result =
  name :: string
  passed :: bool
  message :: string
  category :: string
  severity :: string

datatype deployer_class = RenderDeployer | RailwayDeployer | VercelDeployer | HerokuDeployer
datatype checker_class = SystemChecker | FlaskChecker | DjangoChecker | FastAPIChecker

definition AVAILABLE_DEPLOYERS :: "(string \<times> deployer_class) list" where
  "AVAILABLE_DEPLOYERS =
     [(''render'', RenderDeployer), (''railway'', RailwayDeployer),
      (''vercel'', VercelDeployer), (''heroku'', HerokuDeployer)]"

definition AVAILABLE_CHECKERS :: "(string \<times> checker_class) list" where
  "AVAILABLE_CHECKERS =
     [(''flask'', FlaskChecker), (''django'', DjangoChecker), (''fastapi'', FastAPIChecker)]"

datatype event =
    DeployEntered string bool
  | SystemChecksRun
  | FrameworkChecksRun checker_class
  | ConfigValidated
  | PlatformValidateRun deployer_class
  | MigrationsRun
  | PlatformDeployRun deployer_class
  | CheckpointRequested string pydict

type_synonym 'w project = "tree \<times> 'w"

record 'w collaborators =
  system_check_all :: "'w project \<Rightarrow> (bool \<times> check_result list) \<times> 'w project"
  framework_check_all :: "checker_class \<Rightarrow> 'w project \<Rightarrow> (bool \<times> check_result list) \<times> 'w project"
  run_migrations :: "'w project \<Rightarrow> bool \<times> 'w project"
  deployer_validate :: "deployer_class \<Rightarrow> pyval \<Rightarrow> 'w project \<Rightarrow> bool \<times> 'w project"
  deployer_deploy :: "deployer_class \<Rightarrow> pyval \<Rightarrow> 'w project \<Rightarrow> bool \<times> 'w project"
  checkpoint_io :: "'w \<Rightarrow> ckpt_io"

record 'w deployer =
  config :: pyval
  deployers :: "(string \<times> deployer_class \<times> pyval) list"
  checkers :: "(string \<times> checker_class \<times> check_result list) list"
  system_results :: "check_result list"
  store :: fs
  world :: 'w
  calls :: "event list"

text \<open>A call to a collaborator: it acts on the project files and the world, nothing else.\<close>

definition collaborate :: "('w project \<Rightarrow> 'r \<times> 'w project) \<Rightarrow> event \<Rightarrow> 'w deployer \<Rightarrow> 'r \<times> 'w deployer" where
  "collaborate act ev s =
     (let (r, (t, w)) = act (files (store s), world s)
      in (r, s\<lparr>store := (store s)\<lparr>files := t\<rparr>, world := w, calls := calls s @ [ev]\<rparr>))"

definition run_system_checks ::
  "'w collaborators \<Rightarrow> 'w deployer \<Rightarrow> (bool \<times> check_result list) \<times> 'w deployer" where
  "run_system_checks env s =
     (let ((system_ready, results), s1) = collaborate (system_check_all env) SystemChecksRun s
      in ((system_ready, results),
          s1\<lparr>checkers := dict_setitem (checkers s1) ''system'' (SystemChecker, results),
             system_results := results\<rparr>))"

definition check_deployment_readiness ::
  "'w collaborators \<Rightarrow> string \<Rightarrow> 'w deployer \<Rightarrow> (bool \<times> check_result list) \<times> 'w deployer" where
  "check_deployment_readiness env framework s =
     (let ((system_ready, sys_results), s1) = run_system_checks env s
      in case map_of AVAILABLE_CHECKERS (lower framework) of
           None \<Rightarrow> ((False, sys_results), s1)
         | Some checker_class \<Rightarrow>
             (let ((is_ready, results), s2) =
                    collaborate (framework_check_all env checker_class)
                      (FrameworkChecksRun checker_class) s1
              in ((system_ready \<and> is_ready, sys_results @ results),
                  s2\<lparr>checkers := dict_setitem (checkers s2) (lower framework)
                                    (checker_class, results)\<rparr>)))"

text \<open>\<open>BaseDeployer.__init__\<close> keeps \<open>config or {}\<close>.\<close>

definition deployer_config :: "pyval \<Rightarrow> pyval" where
  "deployer_config cfg = (if truthy cfg then cfg else PDict [])"

definition initialize_deployer ::
  "string \<Rightarrow> 'w deployer \<Rightarrow> (deployer_class \<times> pyval) option \<times> 'w deployer" where
  "initialize_deployer platform s =
     (case map_of AVAILABLE_DEPLOYERS (lower platform) of
        None \<Rightarrow> (None, s)
      | Some deployer_class \<Rightarrow>
          (let d = (deployer_class, deployer_config (config s))
           in (Some d, s\<lparr>deployers := dict_setitem (deployers s) (lower platform) d\<rparr>)))"

definition validate_deployment ::
  "'w collaborators \<Rightarrow> string \<Rightarrow> 'w deployer \<Rightarrow> (exn + bool) \<times> 'w deployer" where
  "validate_deployment env platform s =
     (let s1 = s\<lparr>calls := calls s @ [ConfigValidated]\<rparr>
      in case validate (config s) of
           Inl e \<Rightarrow> (Inl e, s1)
         | Inr (is_valid, errors) \<Rightarrow>
             if \<not> is_valid then (Inr False, s1)
             else
               (case initialize_deployer platform s1 of
                  (None, s2) \<Rightarrow> (Inr False, s2)
                | (Some d, s2) \<Rightarrow>
                    (let (ok, s3) = collaborate (deployer_validate env (fst d) (snd d))
                                      (PlatformValidateRun (fst d)) s2
                     in if \<not> ok then (Inr False, s3) else (Inr True, s3))))"

text \<open>The metadata \<open>deploy\<close> hands to \<open>create_checkpoint\<close>.\<close>

definition deploy_metadata :: "bool \<Rightarrow> 'w deployer \<Rightarrow> pydict" where
  "deploy_metadata run_migr s =
     [(KStr ''run_migrations'', PBool run_migr),
      (KStr ''config_snapshot'', config s),
      (KStr ''checked_frameworks'', PList (map (\<lambda>c. PStr (fst c)) (checkers s)))]"

definition request_checkpoint ::
  "'w collaborators \<Rightarrow> string \<Rightarrow> pydict \<Rightarrow> 'w deployer \<Rightarrow> pydict option \<times> 'w deployer" where
  "request_checkpoint env platform metadata s =
     (let (state, st) = create_checkpoint (checkpoint_io env (world s)) platform (Some metadata) (store s)
      in (state, s\<lparr>store := st, calls := calls s @ [CheckpointRequested platform metadata]\<rparr>))"

definition deploy ::
  "'w collaborators \<Rightarrow> string \<Rightarrow> bool \<Rightarrow> 'w deployer \<Rightarrow> (exn + bool) \<times> 'w deployer" where
  "deploy env platform run_migr s =
     (let s0 = s\<lparr>calls := calls s @ [DeployEntered platform run_migr]\<rparr>;
          ((system_ready, sys_results), s1) = run_system_checks env s0
      in if \<not> system_ready then (Inr False, s1)
         else
           (case validate_deployment env platform s1 of
              (Inl e, s2) \<Rightarrow> (Inl e, s2)
            | (Inr False, s2) \<Rightarrow> (Inr False, s2)
            | (Inr True, s2) \<Rightarrow>
                (let s3 = (if run_migr
                           then snd (collaborate (run_migrations env) MigrationsRun s2)
                           else s2);
                     (deployer, s4) =
                       (case map_of (deployers s3) (lower platform) of
                          Some d \<Rightarrow> (Some d, s3)
                        | None \<Rightarrow> initialize_deployer platform s3)
                 in case deployer of
                      None \<Rightarrow> (Inr False, s4)
                    | Some d \<Rightarrow>
                        (let (ok, s5) = collaborate (deployer_deploy env (fst d) (snd d))
                                          (PlatformDeployRun (fst d)) s4
                         in if \<not> ok then (Inr False, s5)
                            else (Inr True,
                                  snd (request_checkpoint env platform
                                         (deploy_metadata run_migr s5) s5))))))"

fun deploy_each ::
  "'w collaborators \<Rightarrow> string list \<Rightarrow> bool \<Rightarrow> (string \<times> bool) list \<Rightarrow> 'w deployer
     \<Rightarrow> (exn + (string \<times> bool) list) \<times> 'w deployer" where
  "deploy_each env [] run_migr results s = (Inr results, s)"
| "deploy_each env (platform # rest) run_migr results s =
     (case deploy env platform run_migr s of
        (Inl e, s1) \<Rightarrow> (Inl e, s1)
      | (Inr outcome, s1) \<Rightarrow>
          deploy_each env rest run_migr (dict_setitem results platform outcome) s1)"

definition deploy_to_multiple_platforms ::
  "'w collaborators \<Rightarrow> string list \<Rightarrow> bool \<Rightarrow> 'w deployer
     \<Rightarrow> (exn + (string \<times> bool) list) \<times> 'w deployer" where
  "deploy_to_multiple_platforms env platforms run_migr s = deploy_each env platforms run_migr [] s"

section \<open>Notions used in the statements\<close>

text \<open>
  A history of checkpoint creations: successive calls of \<open>create_checkpoint\<close>, each with
  what the environment answered during it, the platform and the metadata.
\<close>

type_synonym creation = "ckpt_io \<times> string \<times> pydict option"

fun create_checkpoints :: "creation list \<Rightarrow> fs \<Rightarrow> fs" where
  "create_checkpoints [] s = s"
| "create_checkpoints (c # cs) s =
     create_checkpoints cs (snd (create_checkpoint (fst c) (fst (snd c)) (snd (snd c)) s))"

definition creation_id :: "creation \<Rightarrow> string" where
  "creation_id c = generate_deployment_id (fst c) (fst (snd c))"

definition no_faults :: "ckpt_io \<Rightarrow> bool" where
  "no_faults io = (\<not> mkdir_fault io \<and> snapshot_fault io = None \<and> write_fault io = None)"

text \<open>
  A history is orderly when no file-system operation failed in it, no two of its
  checkpoints got the same id (same platform within the same second), and the sidecars'
  modification times increase in the order of creation.
\<close>

definition orderly :: "creation list \<Rightarrow> bool" where
  "orderly cs =
     (list_all (\<lambda>c. no_faults (fst c)) cs
      \<and> distinct (map creation_id cs)
      \<and> sorted_wrt (<) (map (\<lambda>c. sidecar_mtime (fst c)) cs))"

text \<open>The sidecar a fault-free creation writes.\<close>

definition sidecar_payload :: "creation \<Rightarrow> pyval" where
  "sidecar_payload c =
     make_json_safe (PDict (dict_setitem (checkpoint_state (fst c) (fst (snd c)) (snd (snd c)))
        (KStr ''artifact_path'') (PStr (artifact_rel_path (creation_id c)))))"

definition sidecar_entry :: "creation \<Rightarrow> string \<times> nat \<times> pyval option" where
  "sidecar_entry c = (creation_id c, sidecar_mtime (fst c), Some (sidecar_payload c))"

text \<open>The primitives of \<open>_make_json_safe\<close>: \<open>str\<close>, \<open>int\<close>, \<open>float\<close>, \<open>bool\<close> and \<open>None\<close>.\<close>

fun is_primitive :: "pyval \<Rightarrow> bool" where
  "is_primitive PNone = True"
| "is_primitive (PBool b) = True"
| "is_primitive (PInt i) = True"
| "is_primitive (PFloat r) = True"
| "is_primitive (PStr s) = True"
| "is_primitive v = False"

text \<open>Values built from primitives, lists and string-keyed dicts only.\<close>

fun is_str_key :: "pykey \<Rightarrow> bool" where
  "is_str_key (KStr s) = True"
| "is_str_key k = False"

fun json_plain :: "pyval \<Rightarrow> bool" where
  "json_plain (PList xs) = list_all json_plain xs"
| "json_plain (PDict d) = list_all (\<lambda>kv. is_str_key (fst kv) \<and> json_plain (snd kv)) d"
| "json_plain (PTuple xs) = False"
| "json_plain (PSet xs) = False"
| "json_plain (PObj r) = False"
| "json_plain v = True"

definition is_deploy_entry :: "event \<Rightarrow> bool" where
  "is_deploy_entry ev = (case ev of DeployEntered p m \<Rightarrow> True | _ \<Rightarrow> False)"

definition is_checkpoint_request :: "event \<Rightarrow> bool" where
  "is_checkpoint_request ev = (case ev of CheckpointRequested p m \<Rightarrow> True | _ \<Rightarrow> False)"


text \<open>The project a collaborator called in state \<open>s\<close> acts on.\<close>

definition project_of :: "'w deployer \<Rightarrow> 'w project" where
  "project_of s = (files (store s), world s)"

text \<open>The states \<open>deploy\<close> passes through: after the system gate, after validation, after the migration step.\<close>

definition after_gate :: "'w collaborators \<Rightarrow> string \<Rightarrow> bool \<Rightarrow> 'w deployer \<Rightarrow> 'w deployer" where
  "after_gate env platform run_migr s =
     snd (run_system_checks env (s\<lparr>calls := calls s @ [DeployEntered platform run_migr]\<rparr>))"

definition after_validation :: "'w collaborators \<Rightarrow> string \<Rightarrow> bool \<Rightarrow> 'w deployer \<Rightarrow> 'w deployer" where
  "after_validation env platform run_migr s =
     snd (validate_deployment env platform (after_gate env platform run_migr s))"

definition after_migrations :: "'w collaborators \<Rightarrow> string \<Rightarrow> bool \<Rightarrow> 'w deployer \<Rightarrow> 'w deployer" where
  "after_migrations env platform run_migr s =
     (if run_migr
      then snd (collaborate (run_migrations env) MigrationsRun (after_validation env platform run_migr s))
      else after_validation env platform run_migr s)"

subsection \<open>Sample data\<close>

text \<open>A small project, environment answers and collaborators on which the statements are instantiated.\<close>

definition fresh_project :: fs where
  "fresh_project =
     \<lparr>files = [(([], ''app.py''), ''v1''), (([''__pycache__''], ''app.pyc''), ''bytecode'')],
      dep_dir = False, sidecars = [], art_dir = False, artifacts = []\<rparr>"

definition io_at :: "nat \<Rightarrow> ckpt_io" where
  "io_at t =
     \<lparr>id_stamp = ''2024010100000'' @ digits t, iso_time = ''2024-01-01T00:00:0'' @ digits t,
      git_commit = None, sidecar_mtime = t, mkdir_fault = False,
      snapshot_fault = None, write_fault = None\<rparr>"

definition creation_at :: "nat \<Rightarrow> creation" where
  "creation_at t = (io_at t, ''Render'', None)"

definition three_creations :: "creation list" where
  "three_creations = map creation_at [1, 2, 3]"

definition seven_creations :: "creation list" where
  "seven_creations = map creation_at [1, 2, 3, 4, 5, 6, 7]"

definition sample_result :: "bool \<Rightarrow> check_result" where
  "sample_result ok =
     \<lparr>name = ''Python runtime'', passed = ok, message = ''runtime.txt'',
      category = ''system'', severity = ''high''\<rparr>"

text \<open>
  Collaborators that answer with fixed outcomes; the world counts the platform
  deployments carried out.
\<close>

definition sample_env :: "bool \<Rightarrow> bool \<Rightarrow> bool \<Rightarrow> bool \<Rightarrow> nat collaborators" where
  "sample_env sys_ok validate_ok migrate_ok deploy_ok =
     \<lparr>system_check_all = (\<lambda>p. ((sys_ok, [sample_result sys_ok]), p)),
      framework_check_all = (\<lambda>c p. ((c \<noteq> DjangoChecker, [sample_result (c \<noteq> DjangoChecker)]), p)),
      run_migrations = (\<lambda>p. (migrate_ok, p)),
      deployer_validate = (\<lambda>c cfg p. (validate_ok, p)),
      deployer_deploy = (\<lambda>c cfg p. (deploy_ok, (fst p, Suc (snd p)))),
      checkpoint_io = (\<lambda>w. io_at w)\<rparr>"

definition sample_config :: pyval where
  "sample_config = PDict [(KStr ''platform'', PStr ''render''), (KStr ''app_name'', PStr ''demo'')]"

definition sample_deployer :: "pyval \<Rightarrow> nat deployer" where
  "sample_deployer cfg =
     \<lparr>config = cfg, deployers = [], checkers = [], system_results = [],
      store = fresh_project, world = 0, calls = []\<rparr>"






text \<open>A configuration whose platform list has an element that is not a string.\<close>

definition list_config :: pyval where
  "list_config =
     PDict [(KStr ''platform'', PList [PStr ''render'', PInt 2]), (KStr ''app_name'', PStr ''demo'')]"

section \<open>Facts about dictionaries\<close>

lemma dict_setitem_map_of: "map_of (dict_setitem d k v) = (map_of d)(k \<mapsto> v)"
  by (simp add: dict_setitem_def update_conv')

lemma dict_setitem_keys: "fst ` set (dict_setitem d k v) = insert k (fst ` set d)"
  unfolding dict_setitem_def by (induction d) auto

lemma dict_setitem_subset: "set (dict_setitem d k v) \<subseteq> insert (k, v) (set d)"
  unfolding dict_setitem_def by (induction d) auto

lemma dict_setitem_fresh:
  "k \<notin> fst ` set d \<Longrightarrow> dict_setitem d k v = d @ [(k, v)]"
  by (induction d) (auto simp: dict_setitem_def)

lemma dict_update_map_of:
  "map_of (dict_update d other) k =
     (case map_of (rev other) k of Some v \<Rightarrow> Some v | None \<Rightarrow> map_of d k)"
  unfolding dict_update_def
proof (induction other arbitrary: d)
  case Nil
  then show ?case by simp
next
  case (Cons kv other)
  show ?case
    by (simp add: Cons dict_setitem_map_of map_add_def split: option.splits)
qed

lemma dict_update_subset: "set (dict_update d other) \<subseteq> set d \<union> set other"
  unfolding dict_update_def
proof (induction other arbitrary: d)
  case Nil
  then show ?case by simp
next
  case (Cons kv other)
  have "set (dict_setitem d (fst kv) (snd kv)) \<subseteq> insert kv (set d)"
    using dict_setitem_subset [of d "fst kv" "snd kv"] by simp
  then show ?case using Cons [of "dict_setitem d (fst kv) (snd kv)"] by auto
qed

lemma dict_update_fresh:
  "distinct (map fst other) \<Longrightarrow> fst ` set d \<inter> fst ` set other = {}
     \<Longrightarrow> dict_update d other = d @ other"
  unfolding dict_update_def
proof (induction other arbitrary: d)
  case Nil
  then show ?case by simp
next
  case (Cons kv other)
  have a: "dict_setitem d (fst kv) (snd kv) = d @ [kv]"
    using Cons.prems(2) by (intro dict_setitem_fresh [THEN trans]) auto
  have b: "fst ` set (d @ [kv]) \<inter> fst ` set other = {}"
    using Cons.prems by auto
  show ?case using Cons.IH [of "d @ [kv]"] Cons.prems(1) a b by simp
qed

lemma dict_of_items_distinct:
  "distinct (map fst items) \<Longrightarrow> dict_of_items items = items"
  using dict_update_fresh [of items "[]"] by (simp add: dict_of_items_def)

section \<open>JSON-safety normalization\<close>

lemma json_plain_make_json_safe: "json_plain (make_json_safe v)"
proof (induction v rule: make_json_safe.induct)
  case (6 items)
  let ?ps = "map (\<lambda>kv. (KStr (key_str (fst kv)), make_json_safe (snd kv))) items"
  have "set (dict_of_items ?ps) \<subseteq> set ?ps"
    using dict_update_subset [of "[]" ?ps] by (simp add: dict_of_items_def)
  moreover have "\<forall>kv\<in>set ?ps. is_str_key (fst kv) \<and> json_plain (snd kv)"
    using 6 by auto
  ultimately have "\<forall>kv\<in>set (dict_of_items ?ps). is_str_key (fst kv) \<and> json_plain (snd kv)"
    by blast
  then show ?case by (simp add: list_all_iff)
qed (auto simp: list_all_iff)

text \<open>
  C8.  \<open>_make_json_safe\<close> returns a primitive (string, integer, float, boolean, \<open>None\<close>)
  unchanged; it maps a list, a tuple and a set to the list of the normalized elements;
  it maps a dict to the dict of the normalized values under the string form of their
  keys (where two keys have the same string form the later item wins; where none do,
  item by item in order); it maps any other value to its string form.  The result is
  built from primitives, lists and string-keyed dicts only.
\<close>

theorem make_json_safe_normalizes:
  "(is_primitive v \<longrightarrow> make_json_safe v = v)
   \<and> make_json_safe (PList xs) = PList (map make_json_safe xs)
   \<and> make_json_safe (PTuple xs) = PList (map make_json_safe xs)
   \<and> make_json_safe (PSet xs) = PList (map make_json_safe xs)
   \<and> (\<exists>d. make_json_safe (PDict items) = PDict d
          \<and> (\<forall>k. map_of d k =
                 map_of (rev (map (\<lambda>kv. (KStr (key_str (fst kv)), make_json_safe (snd kv))) items)) k)
          \<and> (distinct (map (\<lambda>kv. key_str (fst kv)) items) \<longrightarrow>
                 d = map (\<lambda>kv. (KStr (key_str (fst kv)), make_json_safe (snd kv))) items))
   \<and> make_json_safe (PObj r) = PStr r
   \<and> json_plain (make_json_safe v)"
proof -
  let ?ps = "map (\<lambda>kv. (KStr (key_str (fst kv)), make_json_safe (snd kv))) items"
  have prim: "is_primitive v \<longrightarrow> make_json_safe v = v"
    by (cases v) simp_all
  have look: "\<forall>k. map_of (dict_of_items ?ps) k = map_of (rev ?ps) k"
    by (simp add: dict_of_items_def dict_update_map_of split: option.splits)
  have "distinct (map (\<lambda>kv. key_str (fst kv)) items) \<Longrightarrow> distinct (map fst ?ps)"
    by (simp add: comp_def distinct_map inj_on_def)
  then have same: "distinct (map (\<lambda>kv. key_str (fst kv)) items) \<longrightarrow> dict_of_items ?ps = ?ps"
    using dict_of_items_distinct by blast
  show ?thesis
    using prim look same json_plain_make_json_safe [of v] by simp
qed

theorem make_json_safe_normalizes_witness:
  "is_primitive (PInt 3) \<and> make_json_safe (PInt 3) = PInt 3
   \<and> distinct (map (\<lambda>kv. key_str (fst kv))
        [(KInt 1, PTuple [PObj ''Path(app.py)'', PInt 3]), (KStr ''notes'', PStr ''first'')])
   \<and> make_json_safe
        (PDict [(KInt 1, PTuple [PObj ''Path(app.py)'', PInt 3]), (KStr ''notes'', PStr ''first'')])
       = PDict [(KStr ''1'', PList [PStr ''Path(app.py)'', PInt 3]), (KStr ''notes'', PStr ''first'')]"
  using make_json_safe_normalizes
          [of "PInt 3" "[]"
              "[(KInt 1, PTuple [PObj ''Path(app.py)'', PInt 3]), (KStr ''notes'', PStr ''first'')]"
              "''x''"]
  by (simp add: str_of_int_def)

section \<open>Retention\<close>

lemma insort_key_last:
  "\<forall>y\<in>set ys. f y < f x \<Longrightarrow> insort_key f x ys = ys @ [x]"
  for f :: "'a \<Rightarrow> int"
  by (induction ys) auto

lemma newest_first_chrono:
  "sorted_wrt (<) (map (\<lambda>f. fst (snd f)) xs) \<Longrightarrow> newest_first xs = rev xs"
proof (induction xs)
  case Nil
  then show ?case by (simp add: newest_first_def)
next
  case (Cons x xs)
  then have IH: "sort_key (\<lambda>f. - int (fst (snd f))) xs = rev xs"
    by (simp add: newest_first_def)
  have lt: "\<forall>y\<in>set (rev xs). - int (fst (snd y)) < - int (fst (snd x))"
    using Cons.prems by auto
  have "insort_key (\<lambda>f. - int (fst (snd f))) x (rev xs) = rev xs @ [x]"
    using lt by (rule insort_key_last)
  then show ?case
    unfolding newest_first_def
    by (simp add: IH)
qed

lemma filter_not_in_take:
  "distinct (map fst xs) \<Longrightarrow> filter (\<lambda>f. fst f \<notin> fst ` set (take m xs)) xs = drop m xs"
proof (induction xs arbitrary: m)
  case Nil
  then show ?case by simp
next
  case (Cons x xs)
  show ?case
  proof (cases m)
    case 0
    then show ?thesis by simp
  next
    case (Suc j)
    have "filter (\<lambda>f. fst f \<notin> insert (fst x) (fst ` set (take j xs))) xs
          = filter (\<lambda>f. fst f \<notin> fst ` set (take j xs)) xs"
      using Cons.prems by (intro filter_cong) (auto simp: image_iff)
    then show ?thesis using Cons Suc by simp
  qed
qed

lemma filter_in_drop:
  "distinct (map fst ys) \<Longrightarrow> filter (\<lambda>a. fst a \<in> set (drop m (map fst ys))) ys = drop m ys"
proof (induction ys arbitrary: m)
  case Nil
  then show ?case by simp
next
  case (Cons y ys)
  show ?case
  proof (cases m)
    case 0
    then show ?thesis by (simp add: filter_id_conv)
  next
    case (Suc j)
    have "fst y \<notin> set (drop j (map fst ys))"
      using Cons.prems by (auto dest: in_set_dropD)
    then show ?thesis using Cons Suc by simp
  qed
qed

text \<open>
  On a history directory whose sidecars are listed oldest first, with pairwise
  different names and an archive for each, the sweep keeps the last \<open>k\<close> of both.
\<close>

lemma clean_chrono:
  assumes "dep_dir s" "art_dir s"
    and "sorted_wrt (<) (map (\<lambda>f. fst (snd f)) (sidecars s))"
    and "distinct (map fst (sidecars s))"
    and "map fst (artifacts s) = map fst (sidecars s)"
  shows "clean_old_deployments (int k) s =
           s\<lparr>sidecars := drop (length (sidecars s) - k) (sidecars s),
              artifacts := drop (length (sidecars s) - k) (artifacts s)\<rparr>"
proof -
  let ?xs = "sidecars s"
  let ?n = "length ?xs"
  have nf: "newest_first ?xs = rev ?xs" using assms(3) by (rule newest_first_chrono)
  have removed: "set (map fst (drop k (rev ?xs))) = fst ` set (take (?n - k) ?xs)"
    by (simp add: drop_rev)
  have keep: "set (map fst (take k (rev ?xs))) = set (drop (?n - k) (map fst (artifacts s)))"
    by (simp add: take_rev assms(5) drop_map)
  have d2: "distinct (map fst (artifacts s))" using assms(4,5) by simp
  have a: "filter (\<lambda>f. fst f \<notin> set (map fst (drop k (rev ?xs)))) ?xs = drop (?n - k) ?xs"
    unfolding removed using assms(4) by (rule filter_not_in_take)
  have b: "filter (\<lambda>a. fst a \<in> set (map fst (take k (rev ?xs)))) (artifacts s)
             = drop (?n - k) (artifacts s)"
    unfolding keep using d2 by (rule filter_in_drop)
  show ?thesis
    using assms(1,2) a b
    by (simp add: clean_old_deployments_def nf slice_to_def slice_from_def Let_def)
qed

lemma clean_five_chrono:
  assumes "dep_dir s" "art_dir s"
    and "sorted_wrt (<) (map (\<lambda>f. fst (snd f)) (sidecars s))"
    and "distinct (map fst (sidecars s))"
    and "map fst (artifacts s) = map fst (sidecars s)"
  shows "clean_old_deployments 5 s =
           s\<lparr>sidecars := drop (length (sidecars s) - 5) (sidecars s),
              artifacts := drop (length (sidecars s) - 5) (artifacts s)\<rparr>"
  using clean_chrono [OF assms, of 5] by simp

lemma create_checkpoints_snoc:
  "create_checkpoints (cs @ [c]) s =
     snd (create_checkpoint (fst c) (fst (snd c)) (snd (snd c)) (create_checkpoints cs s))"
  by (induction cs arbitrary: s) auto

lemma save_no_faults:
  assumes "no_faults io" "i \<notin> fst ` set (sidecars s)" "i \<notin> fst ` set (artifacts s)"
  shows "snd (save_deployment_state io i st s) =
           s\<lparr>dep_dir := True, art_dir := True,
              artifacts := artifacts s @ [(i, snapshot_entries (files s))],
              sidecars := sidecars s @ [(i, sidecar_mtime io,
                 Some (make_json_safe (PDict (dict_setitem st (KStr ''artifact_path'')
                         (PStr (artifact_rel_path i))))))]\<rparr>"
    and "fst (fst (save_deployment_state io i st s))"
  using assms
  by (simp_all add: save_deployment_state_def create_project_snapshot_def no_faults_def
        dict_setitem_fresh Let_def)

lemma create_checkpoint_no_faults:
  assumes "no_faults (fst c)"
    and "creation_id c \<notin> fst ` set (sidecars s)" "creation_id c \<notin> fst ` set (artifacts s)"
  shows "snd (create_checkpoint (fst c) (fst (snd c)) (snd (snd c)) s) =
           clean_old_deployments 5
             (s\<lparr>dep_dir := True, art_dir := True,
                artifacts := artifacts s @ [(creation_id c, snapshot_entries (files s))],
                sidecars := sidecars s @ [sidecar_entry c]\<rparr>)"
proof -
  let ?r = "save_deployment_state (fst c) (creation_id c)
              (checkpoint_state (fst c) (fst (snd c)) (snd (snd c))) s"
  have a: "fst (fst ?r)" and b: "snd ?r = s\<lparr>dep_dir := True, art_dir := True,
                artifacts := artifacts s @ [(creation_id c, snapshot_entries (files s))],
                sidecars := sidecars s @ [sidecar_entry c]\<rparr>"
    using save_no_faults [OF assms, of "checkpoint_state (fst c) (fst (snd c)) (snd (snd c))"]
    by (simp_all add: sidecar_entry_def sidecar_payload_def)
  show ?thesis
    using a b
    by (simp add: create_checkpoint_def creation_id_def [symmetric] Let_def split_beta)
qed

lemma drop_snoc_window:
  "drop (length (drop (n - 5) xs @ [x]) - 5) (drop (n - 5) xs @ [x]) = drop (Suc n - 5) (xs @ [x])"
  if "n = length xs"
proof (cases "length xs < 5")
  case True
  then show ?thesis using that by simp
next
  case False
  then have "Suc (length xs - 5) = length xs - 4" by arith
  then show ?thesis using that False by simp
qed

lemma history_invariant:
  assumes "sidecars s0 = []" "artifacts s0 = []" "orderly cs"
  shows "sidecars (create_checkpoints cs s0) = drop (length cs - 5) (map sidecar_entry cs)
       \<and> artifacts (create_checkpoints cs s0) =
           drop (length cs - 5) (map (\<lambda>c. (creation_id c, snapshot_entries (files s0))) cs)
       \<and> files (create_checkpoints cs s0) = files s0
       \<and> (cs \<noteq> [] \<longrightarrow> dep_dir (create_checkpoints cs s0) \<and> art_dir (create_checkpoints cs s0))"
  using assms(3)
proof (induction cs rule: rev_induct)
  case Nil
  then show ?case using assms(1,2) by simp
next
  case (snoc c cs)
  let ?s = "create_checkpoints cs s0"
  let ?n = "length cs"
  let ?art = "\<lambda>c. (creation_id c, snapshot_entries (files s0))"
  have ord: "orderly cs" using snoc.prems by (auto simp: orderly_def sorted_wrt_append)
  note IH = snoc.IH [OF ord]
  have nf: "no_faults (fst c)" using snoc.prems by (simp add: orderly_def)
  have fresh: "creation_id c \<notin> set (map creation_id cs)"
    using snoc.prems by (auto simp: orderly_def)
  have newer: "\<forall>d\<in>set cs. sidecar_mtime (fst d) < sidecar_mtime (fst c)"
    using snoc.prems by (auto simp: orderly_def sorted_wrt_append)
  have side: "sidecars ?s = drop (?n - 5) (map sidecar_entry cs)"
    and arts: "artifacts ?s = drop (?n - 5) (map ?art cs)"
    and fl: "files ?s = files s0"
    using IH by simp_all
  have ids_side: "map fst (sidecars ?s) = drop (?n - 5) (map creation_id cs)"
    by (simp add: side drop_map [symmetric] sidecar_entry_def comp_def)
  have ids_arts: "map fst (artifacts ?s) = drop (?n - 5) (map creation_id cs)"
    by (simp add: arts drop_map [symmetric] comp_def)
  have f1: "creation_id c \<notin> fst ` set (sidecars ?s)"
    using fresh ids_side by (metis in_set_dropD list.set_map)
  have f2: "creation_id c \<notin> fst ` set (artifacts ?s)"
    using fresh ids_arts by (metis in_set_dropD list.set_map)
  let ?s1 = "?s\<lparr>dep_dir := True, art_dir := True,
                artifacts := artifacts ?s @ [(creation_id c, snapshot_entries (files ?s))],
                sidecars := sidecars ?s @ [sidecar_entry c]\<rparr>"
  have step: "create_checkpoints (cs @ [c]) s0 = clean_old_deployments 5 ?s1"
    using create_checkpoint_no_faults [OF nf f1 f2] by (simp add: create_checkpoints_snoc)
  have mt_side: "map (\<lambda>f. fst (snd f)) (sidecars ?s)
                   = drop (?n - 5) (map (\<lambda>d. sidecar_mtime (fst d)) cs)"
    by (simp add: side drop_map [symmetric] sidecar_entry_def comp_def)
  have sorted_cs: "sorted_wrt (<) (map (\<lambda>d. sidecar_mtime (fst d)) cs)"
    using ord by (simp add: orderly_def)
  have s_sorted: "sorted_wrt (<) (map (\<lambda>f. fst (snd f)) (sidecars ?s1))"
    using sorted_cs newer
    by (auto simp: mt_side sorted_wrt_append sidecar_entry_def dest!: in_set_dropD)
  have dist_cs: "distinct (map creation_id cs)" using ord by (simp add: orderly_def)
  have s_dist: "distinct (map fst (sidecars ?s1))"
    using dist_cs fresh
    by (auto simp: ids_side sidecar_entry_def dest: in_set_dropD)
  have s_same: "map fst (artifacts ?s1) = map fst (sidecars ?s1)"
    by (simp add: ids_side ids_arts sidecar_entry_def)
  have cl: "clean_old_deployments 5 ?s1 =
              ?s1\<lparr>sidecars := drop (length (sidecars ?s1) - 5) (sidecars ?s1),
                   artifacts := drop (length (sidecars ?s1) - 5) (artifacts ?s1)\<rparr>"
    by (rule clean_five_chrono) (use s_sorted s_dist s_same in simp_all)
  have w1: "drop (length (sidecars ?s1) - 5) (sidecars ?s1)
              = drop (Suc ?n - 5) (map sidecar_entry (cs @ [c]))"
    using drop_snoc_window [of ?n "map sidecar_entry cs" "sidecar_entry c"]
    by (simp add: side)
  have w2: "drop (length (sidecars ?s1) - 5) (artifacts ?s1)
              = drop (Suc ?n - 5) (map ?art (cs @ [c]))"
    using drop_snoc_window [of ?n "map ?art cs" "?art c"]
    by (simp add: side arts fl)
  show ?case
    unfolding step cl using w1 w2 fl by simp
qed

lemma window_arith: "(min n 5 - k) + (n - 5) = n - min k (5::nat)"
  by arith

lemma retention_after_sweep:
  assumes "sidecars s0 = []" "artifacts s0 = []" "orderly cs" "cs \<noteq> []"
  shows "map fst (sidecars (clean_old_deployments (int k) (create_checkpoints cs s0)))
           = drop (length cs - min k 5) (map creation_id cs)"
    and "map fst (artifacts (clean_old_deployments (int k) (create_checkpoints cs s0)))
           = drop (length cs - min k 5) (map creation_id cs)"
proof -
  let ?s = "create_checkpoints cs s0"
  let ?n = "length cs"
  let ?art = "\<lambda>c. (creation_id c, snapshot_entries (files s0))"
  note inv = history_invariant [OF assms(1-3)]
  have side: "sidecars ?s = drop (?n - 5) (map sidecar_entry cs)"
    and arts: "artifacts ?s = drop (?n - 5) (map ?art cs)"
    and dirs: "dep_dir ?s" "art_dir ?s"
    using inv assms(4) by simp_all
  have ids_side: "map fst (sidecars ?s) = drop (?n - 5) (map creation_id cs)"
    by (simp add: side drop_map [symmetric] sidecar_entry_def comp_def)
  have ids_arts: "map fst (artifacts ?s) = drop (?n - 5) (map creation_id cs)"
    by (simp add: arts drop_map [symmetric] comp_def)
  have mt_side: "map (\<lambda>f. fst (snd f)) (sidecars ?s)
                   = drop (?n - 5) (map (\<lambda>d. sidecar_mtime (fst d)) cs)"
    by (simp add: side drop_map [symmetric] sidecar_entry_def comp_def)
  have s_sorted: "sorted_wrt (<) (map (\<lambda>f. fst (snd f)) (sidecars ?s))"
    using assms(3) by (simp add: mt_side orderly_def)
  have s_dist: "distinct (map fst (sidecars ?s))"
    using assms(3) by (simp add: ids_side orderly_def)
  have s_same: "map fst (artifacts ?s) = map fst (sidecars ?s)"
    by (simp add: ids_side ids_arts)
  have cl: "clean_old_deployments (int k) ?s =
              ?s\<lparr>sidecars := drop (length (sidecars ?s) - k) (sidecars ?s),
                  artifacts := drop (length (sidecars ?s) - k) (artifacts ?s)\<rparr>"
    using dirs s_sorted s_dist s_same by (rule clean_chrono)
  have len: "length (sidecars ?s) = min ?n 5"
    by (simp add: side)
  show "map fst (sidecars (clean_old_deployments (int k) ?s))
          = drop (?n - min k 5) (map creation_id cs)"
    by (simp add: cl drop_map [symmetric] ids_side len window_arith)
  show "map fst (artifacts (clean_old_deployments (int k) ?s))
          = drop (?n - min k 5) (map creation_id cs)"
    by (simp add: cl drop_map [symmetric] ids_arts len window_arith)
qed

lemma clean_absent: "\<not> dep_dir s \<Longrightarrow> clean_old_deployments keep_count s = s"
  by (simp add: clean_old_deployments_def)

lemma orderly_three: "orderly three_creations"
  by (simp add: orderly_def three_creations_def creation_at_def io_at_def no_faults_def
        creation_id_def generate_deployment_id_def)

lemma orderly_seven: "orderly seven_creations"
  by (simp add: orderly_def seven_creations_def creation_at_def io_at_def no_faults_def
        creation_id_def generate_deployment_id_def)

text \<open>
  C2 (as amended).  \<open>create_checkpoint\<close> always sweeps with the default keep count 5.
  So for every orderly history of \<open>N\<close> checkpoint creations in a project without
  earlier checkpoints, and every \<open>k < N\<close>, after \<open>clean_old_deployments(k)\<close> exactly
  \<open>min k 5\<close> sidecar records and \<open>min k 5\<close> archives remain, with the same ids: those
  of the \<open>min k 5\<close> most recently created checkpoints (exactly \<open>k\<close> when \<open>k \<le> 5\<close>).
  Before that sweep the history holds the last 5 (or all, if fewer).  The sweep changes
  nothing when the history directory is absent.
\<close>

theorem retention_bound:
  assumes "sidecars s0 = []" and "artifacts s0 = []" and "orderly cs" and "k < length cs"
  shows "map fst (sidecars (clean_old_deployments (int k) (create_checkpoints cs s0)))
           = drop (length cs - min k 5) (map creation_id cs)
       \<and> map fst (artifacts (clean_old_deployments (int k) (create_checkpoints cs s0)))
           = drop (length cs - min k 5) (map creation_id cs)
       \<and> length (sidecars (clean_old_deployments (int k) (create_checkpoints cs s0))) = min k 5
       \<and> length (artifacts (clean_old_deployments (int k) (create_checkpoints cs s0))) = min k 5
       \<and> map fst (sidecars (create_checkpoints cs s0)) = drop (length cs - 5) (map creation_id cs)
       \<and> (\<forall>s keep_count. \<not> dep_dir s \<longrightarrow> clean_old_deployments keep_count s = s)"
proof -
  have ne: "cs \<noteq> []" using assms(4) by auto
  have before: "map fst (sidecars (create_checkpoints cs s0)) = drop (length cs - 5) (map creation_id cs)"
    using history_invariant [OF assms(1-3)]
    by (simp add: drop_map [symmetric] sidecar_entry_def comp_def)
  note r = retention_after_sweep [OF assms(1-3) ne, of k]
  have l1: "length (sidecars (clean_old_deployments (int k) (create_checkpoints cs s0))) = min k 5"
    using arg_cong [OF r(1), of length] assms(4) by simp
  have l2: "length (artifacts (clean_old_deployments (int k) (create_checkpoints cs s0))) = min k 5"
    using arg_cong [OF r(2), of length] assms(4) by simp
  show ?thesis using r l1 l2 before clean_absent by simp
qed

theorem retention_bound_witness:
  "sidecars fresh_project = [] \<and> artifacts fresh_project = [] \<and> orderly three_creations
   \<and> (2::nat) < length three_creations
   \<and> map fst (sidecars (clean_old_deployments 2 (create_checkpoints three_creations fresh_project)))
       = [''render_20240101000002'', ''render_20240101000003'']
   \<and> map fst (artifacts (clean_old_deployments 2 (create_checkpoints three_creations fresh_project)))
       = [''render_20240101000002'', ''render_20240101000003'']"
proof -
  have a: "sidecars fresh_project = []" "artifacts fresh_project = []"
    by (simp_all add: fresh_project_def)
  have b: "(2::nat) < length three_creations" by (simp add: three_creations_def)
  have ids: "map creation_id three_creations
     = [''render_20240101000001'', ''render_20240101000002'', ''render_20240101000003'']"
    by (simp add: three_creations_def creation_at_def io_at_def creation_id_def
          generate_deployment_id_def lower_def to_lower_def)
  have len: "length three_creations = 3" by (simp add: three_creations_def)
  show ?thesis
    using retention_bound [OF a orderly_three b] a b orderly_three
    by (simp add: ids len)
qed

theorem retention_bound_counterexample:
  "sidecars fresh_project = [] \<and> artifacts fresh_project = [] \<and> orderly seven_creations
   \<and> (6::nat) < length seven_creations
   \<and> length (sidecars (clean_old_deployments 6 (create_checkpoints seven_creations fresh_project))) = 5
   \<and> length (sidecars (clean_old_deployments 6 (create_checkpoints seven_creations fresh_project))) \<noteq> 6"
proof -
  have a: "sidecars fresh_project = []" "artifacts fresh_project = []"
    by (simp_all add: fresh_project_def)
  have ne: "seven_creations \<noteq> []" by (simp add: seven_creations_def)
  have len: "length seven_creations = 7" by (simp add: seven_creations_def)
  have "length (map fst (sidecars (clean_old_deployments (int 6) (create_checkpoints seven_creations fresh_project)))) = 5"
    unfolding retention_after_sweep(1) [OF a orderly_seven ne]
    by (simp add: len)
  then show ?thesis
    using a orderly_seven by (simp add: len)
qed

text \<open>
  Why a history has to be orderly: three checkpoints for the same platform within one
  second share one id, so each sidecar overwrites the one before and a single record
  is left, whatever the keep count.
\<close>

lemma same_second_checkpoints_collapse:
  "map fst (sidecars (clean_old_deployments 2
      (create_checkpoints [creation_at 1, creation_at 1, creation_at 1] fresh_project)))
     = [''render_20240101000001'']"
  by (simp add: creation_at_def io_at_def fresh_project_def create_checkpoint_def
        save_deployment_state_def create_project_snapshot_def checkpoint_state_def
        generate_deployment_id_def lower_def to_lower_def dict_update_def dict_setitem_def
        dict_of_items_def clean_old_deployments_def newest_first_def slice_to_def slice_from_def
        snapshot_entries_def archivable_def EXCLUDED_DIRS_def endswith_def artifact_rel_path_def
        Let_def)

section \<open>Checkpoint creation when archiving fails\<close>













section \<open>Rollback\<close>

lemma get_previous_none:
  "\<not> dep_dir s \<or> sidecars s = [] \<Longrightarrow> get_previous_deployment s = None"
  by (auto simp: get_previous_deployment_def newest_first_def)

text \<open>
  C3.  If no previous checkpoint exists (the history directory is absent, or holds no
  sidecar record), \<open>rollback_to_previous\<close> without a callback returns \<open>False\<close> and
  leaves the project, the history and everything else as they were; no exception
  reaches the caller (the result is a value).
\<close>

theorem rollback_without_checkpoint:
  "\<not> dep_dir s \<or> sidecars s = [] \<Longrightarrow>
     rollback_to_previous None extract_fault (s, w) = (False, s, w)"
  by (simp add: rollback_to_previous_def get_previous_none)

theorem rollback_without_checkpoint_witness:
  "\<not> dep_dir fresh_project \<and> sidecars fresh_project = []
   \<and> rollback_to_previous None None (fresh_project, 0::nat) = (False, fresh_project, 0)"
  using rollback_without_checkpoint [of fresh_project None "0::nat"]
  by (simp add: fresh_project_def)








section \<open>The deployer: readiness, gates and sequencing\<close>

lemma collaborate_fst: "fst (collaborate act ev s) = fst (act (files (store s), world s))"
  by (simp add: collaborate_def split_beta)

lemma collaborate_snd:
  "snd (collaborate act ev s) =
     s\<lparr>store := (store s)\<lparr>files := fst (snd (act (files (store s), world s)))\<rparr>,
       world := snd (snd (act (files (store s), world s))),
       calls := calls s @ [ev]\<rparr>"
  by (simp add: collaborate_def split_beta)

lemma run_system_checks_fst:
  "fst (run_system_checks env s) = fst (system_check_all env (files (store s), world s))"
  by (simp add: run_system_checks_def split_beta collaborate_fst)

lemma run_system_checks_snd:
  "snd (run_system_checks env s) =
     s\<lparr>store := (store s)\<lparr>files := fst (snd (system_check_all env (files (store s), world s)))\<rparr>,
       world := snd (snd (system_check_all env (files (store s), world s))),
       calls := calls s @ [SystemChecksRun],
       checkers := dict_setitem (checkers s) ''system''
                     (SystemChecker, snd (fst (system_check_all env (files (store s), world s)))),
       system_results := snd (fst (system_check_all env (files (store s), world s)))\<rparr>"
  by (simp add: run_system_checks_def split_beta collaborate_fst collaborate_snd)

lemmas eval_defs =
  sample_env_def sample_deployer_def sample_config_def sample_result_def fresh_project_def io_at_def
  deploy_def run_system_checks_def collaborate_def validate_deployment_def initialize_deployer_def
  request_checkpoint_def deploy_metadata_def validate_def platform_errors_def app_name_errors_def
  REQUIRED_KEYS_def VALID_PLATFORMS_def AVAILABLE_DEPLOYERS_def AVAILABLE_CHECKERS_def
  check_deployment_readiness_def
  lower_def to_lower_def strip_def is_space_def dict_setitem_def dict_update_def dict_of_items_def
  deployer_config_def create_checkpoint_def save_deployment_state_def create_project_snapshot_def checkpoint_state_def
  generate_deployment_id_def clean_old_deployments_def newest_first_def slice_to_def slice_from_def
  snapshot_entries_def archivable_def EXCLUDED_DIRS_def endswith_def artifact_rel_path_def
  project_of_def after_gate_def after_validation_def after_migrations_def
  Let_def split_beta

text \<open>
  C7.  \<open>check_deployment_readiness\<close> runs the system checks first, for every framework
  argument.  If the lower-cased framework is not a registered one, it returns \<open>False\<close>
  with the system results and no framework checker is run.  For a registered framework
  the readiness flag is the conjunction of the system answer and the framework checker's
  answer (the checker running on the project the system checks left), and the results
  are the system results followed by the framework results.
\<close>

theorem readiness_gate:
  fixes env :: "'w collaborators" and framework :: string and s :: "'w deployer"
  defines "p0 \<equiv> (files (store s), world s)"
  defines "p1 \<equiv> snd (system_check_all env p0)"
  shows "calls (snd (check_deployment_readiness env framework s)) =
           calls s @ SystemChecksRun #
             (case map_of AVAILABLE_CHECKERS (lower framework) of
                None \<Rightarrow> []
              | Some c \<Rightarrow> [FrameworkChecksRun c])
       \<and> (lower framework \<notin> set [''flask'', ''django'', ''fastapi''] \<longrightarrow>
            fst (check_deployment_readiness env framework s)
              = (False, snd (fst (system_check_all env p0)))
          \<and> calls (snd (check_deployment_readiness env framework s)) = calls s @ [SystemChecksRun])
       \<and> (\<forall>c. map_of AVAILABLE_CHECKERS (lower framework) = Some c \<longrightarrow>
            fst (check_deployment_readiness env framework s)
              = (fst (fst (system_check_all env p0)) \<and> fst (fst (framework_check_all env c p1)),
                 snd (fst (system_check_all env p0)) @ snd (fst (framework_check_all env c p1))))"
proof -
  obtain r1 s1 where rs: "run_system_checks env s = (r1, s1)" by (cases "run_system_checks env s")
  have r1: "r1 = fst (system_check_all env p0)"
    using rs run_system_checks_fst [of env s] by (simp add: p0_def)
  have s1: "s1 = snd (run_system_checks env s)" using rs by simp
  have proj: "(files (store s1), world s1) = p1"
    by (simp add: s1 run_system_checks_snd p1_def p0_def)
  have c1: "calls s1 = calls s @ [SystemChecksRun]"
    by (simp add: s1 run_system_checks_snd)
  have unknown: "map_of AVAILABLE_CHECKERS (lower framework) = None"
    if "lower framework \<notin> set [''flask'', ''django'', ''fastapi'']"
    using that by (simp add: AVAILABLE_CHECKERS_def)
  show ?thesis
  proof (cases "map_of AVAILABLE_CHECKERS (lower framework)")
    case None
    then show ?thesis
      using rs r1 c1 by (simp add: check_deployment_readiness_def split_beta)
  next
    case (Some c)
    then have known: "\<not> lower framework \<notin> set [''flask'', ''django'', ''fastapi'']"
      using unknown by auto
    show ?thesis
      using Some known rs r1 c1 proj
      by (simp add: check_deployment_readiness_def split_beta collaborate_fst collaborate_snd)
  qed
qed

theorem readiness_gate_witness:
  "lower ''Rails'' \<notin> set [''flask'', ''django'', ''fastapi'']
   \<and> fst (check_deployment_readiness (sample_env True True True True) ''Rails'' (sample_deployer sample_config))
       = (False, [sample_result True])
   \<and> calls (snd (check_deployment_readiness (sample_env True True True True) ''Rails'' (sample_deployer sample_config)))
       = [SystemChecksRun]
   \<and> map_of AVAILABLE_CHECKERS (lower ''Django'') = Some DjangoChecker
   \<and> fst (check_deployment_readiness (sample_env True True True True) ''Django'' (sample_deployer sample_config))
       = (False, [sample_result True, sample_result False])
   \<and> calls (snd (check_deployment_readiness (sample_env True True True True) ''Django'' (sample_deployer sample_config)))
       = [SystemChecksRun, FrameworkChecksRun DjangoChecker]"
  using readiness_gate [of "sample_env True True True True" "''Rails''" "sample_deployer sample_config"]
        readiness_gate [of "sample_env True True True True" "''Django''" "sample_deployer sample_config"]
  by (simp add: sample_env_def sample_deployer_def AVAILABLE_CHECKERS_def lower_def to_lower_def)

text \<open>
  C1.  If the system checker reports not-ready, \<open>deploy\<close> returns \<open>False\<close> for every
  platform and migration flag, after the system checks alone: no validation, migration
  or platform call is made, \<open>create_checkpoint\<close> is not called, and the checkpoint
  history is as it was.
\<close>

theorem system_gate_is_fatal:
  assumes "\<not> fst (fst (system_check_all env (files (store s), world s)))"
  shows "fst (deploy env platform run_migr s) = Inr False
       \<and> calls (snd (deploy env platform run_migr s))
           = calls s @ [DeployEntered platform run_migr, SystemChecksRun]
       \<and> dep_dir (store (snd (deploy env platform run_migr s))) = dep_dir (store s)
       \<and> sidecars (store (snd (deploy env platform run_migr s))) = sidecars (store s)
       \<and> art_dir (store (snd (deploy env platform run_migr s))) = art_dir (store s)
       \<and> artifacts (store (snd (deploy env platform run_migr s))) = artifacts (store s)"
proof -
  let ?s0 = "s\<lparr>calls := calls s @ [DeployEntered platform run_migr]\<rparr>"
  have gate: "\<not> fst (fst (run_system_checks env ?s0))"
    using assms by (simp add: run_system_checks_fst)
  have d: "deploy env platform run_migr s = (Inr False, snd (run_system_checks env ?s0))"
    using gate by (simp add: deploy_def Let_def split_beta)
  show ?thesis
    unfolding d by (simp add: run_system_checks_snd)
qed

theorem system_gate_is_fatal_witness:
  "\<not> fst (fst (system_check_all (sample_env False True True True)
                 (files (store (sample_deployer sample_config)), world (sample_deployer sample_config))))
   \<and> fst (deploy (sample_env False True True True) ''render'' True (sample_deployer sample_config)) = Inr False
   \<and> calls (snd (deploy (sample_env False True True True) ''render'' True (sample_deployer sample_config)))
       = [DeployEntered ''render'' True, SystemChecksRun]
   \<and> sidecars (store (snd (deploy (sample_env False True True True) ''render'' True (sample_deployer sample_config)))) = []"
  using system_gate_is_fatal [of "sample_env False True True True" "sample_deployer sample_config" "''render''" True]
  by (simp add: sample_env_def sample_deployer_def fresh_project_def)

lemma initialize_deployer_some:
  "initialize_deployer platform s = (Some d, s') \<Longrightarrow>
     map_of AVAILABLE_DEPLOYERS (lower platform) = Some (fst d) \<and> snd d = deployer_config (config s)
     \<and> s' = s\<lparr>deployers := dict_setitem (deployers s) (lower platform) d\<rparr>"
  by (auto simp: initialize_deployer_def Let_def split: option.splits)

lemma initialize_deployer_none:
  "map_of AVAILABLE_DEPLOYERS (lower platform) = None \<Longrightarrow> initialize_deployer platform s = (None, s)"
  by (simp add: initialize_deployer_def)

lemma validate_true_truthy:
  assumes "validate cfg = Inr (True, errors)"
  shows "truthy cfg"
proof (cases cfg)
  case (PDict d)
  have "map_of d (KStr ''platform'') \<noteq> None"
    using assms PDict
    by (auto simp: validate_def REQUIRED_KEYS_def Let_def split: sum.splits if_splits)
  then have "d \<noteq> []" by auto
  then show ?thesis using PDict by simp
qed (use assms in \<open>simp_all add: validate_def\<close>)

lemma validate_deployment_true:
  assumes "fst (validate_deployment env platform s) = Inr True"
  shows "\<exists>cls. map_of AVAILABLE_DEPLOYERS (lower platform) = Some cls
           \<and> map_of (deployers (snd (validate_deployment env platform s))) (lower platform)
               = Some (cls, config s)
           \<and> config (snd (validate_deployment env platform s)) = config s"
proof -
  let ?s1 = "s\<lparr>calls := calls s @ [ConfigValidated]\<rparr>"
  obtain errors where v: "validate (config s) = Inr (True, errors)"
    using assms
    by (auto simp: validate_deployment_def Let_def split: sum.splits prod.splits if_splits)
  obtain d s2 where i: "initialize_deployer platform ?s1 = (Some d, s2)"
    using assms v
    by (auto simp: validate_deployment_def Let_def split: sum.splits prod.splits if_splits option.splits)
  note f = initialize_deployer_some [OF i]
  have vd: "snd (validate_deployment env platform s)
              = snd (collaborate (deployer_validate env (fst d) (snd d)) (PlatformValidateRun (fst d)) s2)"
    using v i by (simp add: validate_deployment_def Let_def split_beta)
  have "map_of (deployers s2) (lower platform) = Some d"
    using f by (simp add: dict_setitem_map_of)
  moreover have "deployer_config (config s) = config s"
    using validate_true_truthy [OF v] by (simp add: deployer_config_def)
  moreover have "d = (fst d, deployer_config (config s))" using f by (cases d) simp
  ultimately show ?thesis
    using f by (auto simp: vd collaborate_snd)
qed

lemma deploy_despite_failed_migration:
  fixes env :: "'w collaborators" and platform :: string and s :: "'w deployer"
  defines "s1 \<equiv> snd (run_system_checks env (s\<lparr>calls := calls s @ [DeployEntered platform True]\<rparr>))"
  defines "s2 \<equiv> snd (validate_deployment env platform s1)"
  defines "p3 \<equiv> snd (run_migrations env (files (store s2), world s2))"
  assumes gate: "fst (fst (system_check_all env (files (store s), world s)))"
      and valid: "fst (validate_deployment env platform s1) = Inr True"
      and migr: "\<not> fst (run_migrations env (files (store s2), world s2))"
      and dep: "\<forall>cls. map_of AVAILABLE_DEPLOYERS (lower platform) = Some cls \<longrightarrow>
                  fst (deployer_deploy env cls (config s) p3)"
  shows "fst (deploy env platform True s) = Inr True
       \<and> MigrationsRun \<in> set (calls (snd (deploy env platform True s)))
       \<and> (\<exists>metadata. last (calls (snd (deploy env platform True s)))
                        = CheckpointRequested platform metadata)"
proof -
  let ?s0 = "s\<lparr>calls := calls s @ [DeployEntered platform True]\<rparr>"
  have g: "fst (fst (run_system_checks env ?s0))"
    using gate by (simp add: run_system_checks_fst)
  have c1: "config s1 = config s" by (simp add: s1_def run_system_checks_snd)
  obtain cls where cls: "map_of AVAILABLE_DEPLOYERS (lower platform) = Some cls"
    and reg: "map_of (deployers s2) (lower platform) = Some (cls, config s)"
    using validate_deployment_true [OF valid] c1 unfolding s2_def by auto
  let ?s3 = "snd (collaborate (run_migrations env) MigrationsRun s2)"
  have reg3: "map_of (deployers ?s3) (lower platform) = Some (cls, config s)"
    using reg by (simp add: collaborate_snd)
  have proj3: "(files (store ?s3), world ?s3) = p3"
    by (simp add: collaborate_snd p3_def)
  have ok: "fst (collaborate (deployer_deploy env cls (config s)) (PlatformDeployRun cls) ?s3)"
    using dep cls proj3 by (simp add: collaborate_fst)
  let ?s5 = "snd (collaborate (deployer_deploy env cls (config s)) (PlatformDeployRun cls) ?s3)"
  have v: "validate_deployment env platform s1 = (Inr True, s2)"
    using valid by (simp add: s2_def prod_eq_iff)
  have d: "deploy env platform True s
             = (Inr True, snd (request_checkpoint env platform (deploy_metadata True ?s5) ?s5))"
    using g v reg3 ok
    by (simp add: deploy_def Let_def split_beta s1_def [symmetric])
  have m: "MigrationsRun \<in> set (calls ?s5)"
    by (simp add: collaborate_snd)
  show ?thesis
    unfolding d using m by (simp add: request_checkpoint_def split_beta)
qed

text \<open>
  C6.  With \<open>run_migrations = True\<close>: if the system gate passes, validation succeeds,
  the migrator returns \<open>False\<close> and the platform's deploy step (of the deployer
  registered for the platform) returns \<open>True\<close>, then \<open>deploy\<close> returns \<open>True\<close>; the
  migration was run, and the call ends by requesting the checkpoint.
\<close>

theorem migration_failure_is_tolerated:
  assumes gate: "fst (fst (system_check_all env (project_of s)))"
      and valid: "fst (validate_deployment env platform (after_gate env platform True s)) = Inr True"
      and migr: "\<not> fst (run_migrations env (project_of (after_validation env platform True s)))"
      and dep: "\<forall>cls. map_of AVAILABLE_DEPLOYERS (lower platform) = Some cls \<longrightarrow>
                  fst (deployer_deploy env cls (config s)
                         (project_of (after_migrations env platform True s)))"
  shows "fst (deploy env platform True s) = Inr True
       \<and> MigrationsRun \<in> set (calls (snd (deploy env platform True s)))
       \<and> (\<exists>metadata. last (calls (snd (deploy env platform True s)))
                        = CheckpointRequested platform metadata)"
  using deploy_despite_failed_migration [of env s platform] assms
  by (simp add: project_of_def after_gate_def after_validation_def after_migrations_def collaborate_snd)

theorem migration_failure_is_tolerated_witness:
  "fst (fst (system_check_all (sample_env True True False True) (project_of (sample_deployer sample_config))))
   \<and> fst (validate_deployment (sample_env True True False True) ''Render''
            (after_gate (sample_env True True False True) ''Render'' True (sample_deployer sample_config))) = Inr True
   \<and> \<not> fst (run_migrations (sample_env True True False True)
              (project_of (after_validation (sample_env True True False True) ''Render'' True (sample_deployer sample_config))))
   \<and> fst (deploy (sample_env True True False True) ''Render'' True (sample_deployer sample_config)) = Inr True"
proof -
  let ?env = "sample_env True True False True"
  let ?s = "sample_deployer sample_config"
  have g: "fst (fst (system_check_all ?env (project_of ?s)))"
    by (simp add: sample_env_def)
  have v: "fst (validate_deployment ?env ''Render'' (after_gate ?env ''Render'' True ?s)) = Inr True"
    by (simp add: eval_defs)
  have m: "\<not> fst (run_migrations ?env (project_of (after_validation ?env ''Render'' True ?s)))"
    by (simp add: sample_env_def)
  have d: "\<forall>cls. map_of AVAILABLE_DEPLOYERS (lower ''Render'') = Some cls \<longrightarrow>
             fst (deployer_deploy ?env cls (config ?s) (project_of (after_migrations ?env ''Render'' True ?s)))"
    by (simp add: sample_env_def)
  show ?thesis
    using migration_failure_is_tolerated [OF g v m d] g v m by simp
qed

text \<open>
  C10.  Claimed: for a platform whose lower-cased name is not registered, \<open>deploy\<close>
  returns \<open>False\<close> without raising and creates no checkpoint.  The code does not keep
  this where the configuration's platform list has an element that is not a string:
  with the system gate passed, \<open>deploy\<close> for the unregistered platform \<open>aws\<close> raises
  \<open>AttributeError\<close> out of the configuration validator instead of returning \<open>False\<close>.
\<close>

theorem deploy_raises_on_platform_list:
  "lower ''aws'' \<notin> set [''render'', ''railway'', ''vercel'', ''heroku'']
   \<and> fst (fst (system_check_all (sample_env True True True True) (project_of (sample_deployer list_config))))
   \<and> fst (deploy (sample_env True True True True) ''aws'' True (sample_deployer list_config))
       = Inl AttributeError"
  by (simp add: eval_defs list_config_def)

text \<open>
  Where the configuration validator returns, an unregistered platform is rejected:
  \<open>deploy\<close> returns \<open>False\<close> after the system checks and the configuration
  validation at most, with no platform call and no checkpoint.
\<close>

lemma validate_deployment_calls:
  "\<exists>evs. calls (snd (validate_deployment env platform s)) = calls s @ evs
         \<and> \<not> list_ex is_checkpoint_request evs \<and> \<not> list_ex is_deploy_entry evs"
  by (auto simp: validate_deployment_def initialize_deployer_def collaborate_snd Let_def split_beta
        is_checkpoint_request_def is_deploy_entry_def
        split: sum.splits prod.splits option.splits if_splits)

lemma validate_deployment_unknown:
  assumes "map_of AVAILABLE_DEPLOYERS (lower platform) = None" "validate (config s) = Inr v"
  shows "validate_deployment env platform s = (Inr False, s\<lparr>calls := calls s @ [ConfigValidated]\<rparr>)"
  using assms
  by (cases v) (simp add: validate_deployment_def initialize_deployer_def Let_def)

lemma unknown_platform_rejected:
  assumes "lower platform \<notin> set [''render'', ''railway'', ''vercel'', ''heroku'']"
      and "validate (config s) = Inr v"
  shows "fst (deploy env platform run_migr s) = Inr False
       \<and> sidecars (store (snd (deploy env platform run_migr s))) = sidecars (store s)
       \<and> artifacts (store (snd (deploy env platform run_migr s))) = artifacts (store s)
       \<and> calls (snd (deploy env platform run_migr s))
           = calls s @ [DeployEntered platform run_migr, SystemChecksRun]
               @ (if fst (fst (system_check_all env (project_of s))) then [ConfigValidated] else [])"
proof -
  have u: "map_of AVAILABLE_DEPLOYERS (lower platform) = None"
    using assms(1) by (simp add: AVAILABLE_DEPLOYERS_def)
  let ?s0 = "s\<lparr>calls := calls s @ [DeployEntered platform run_migr]\<rparr>"
  let ?s1 = "after_gate env platform run_migr s"
  have c: "config ?s1 = config s" by (simp add: after_gate_def run_system_checks_snd)
  have vd: "validate_deployment env platform ?s1 = (Inr False, ?s1\<lparr>calls := calls ?s1 @ [ConfigValidated]\<rparr>)"
    using validate_deployment_unknown [OF u, of ?s1 v env] assms(2) c by simp
  have g: "fst (fst (run_system_checks env ?s0)) = fst (fst (system_check_all env (project_of s)))"
    by (simp add: run_system_checks_fst project_of_def)
  show ?thesis
  proof (cases "fst (fst (system_check_all env (project_of s)))")
    case False
    then have "deploy env platform run_migr s = (Inr False, ?s1)"
      using g by (simp add: deploy_def Let_def split_beta after_gate_def)
    then show ?thesis
      using False by (simp add: after_gate_def run_system_checks_snd)
  next
    case True
    then have "deploy env platform run_migr s = (Inr False, ?s1\<lparr>calls := calls ?s1 @ [ConfigValidated]\<rparr>)"
      using g vd by (simp add: deploy_def Let_def split_beta after_gate_def)
    then show ?thesis
      using True by (simp add: after_gate_def run_system_checks_snd)
  qed
qed

text \<open>
  C9.  Claimed: \<open>deploy_to_multiple_platforms\<close> calls \<open>deploy\<close> once per platform, in list
  order, and returns the map from each platform to its outcome, a \<open>False\<close> outcome not
  stopping it.  The code does not keep this for the same configuration: the first
  \<open>deploy\<close> raises, the exception leaves \<open>deploy_to_multiple_platforms\<close>, no map is
  returned and \<open>deploy\<close> is never entered for the second platform.
\<close>

theorem deploy_to_multiple_aborts_on_raise:
  "fst (deploy_to_multiple_platforms (sample_env True True True True) [''render'', ''railway''] True
          (sample_deployer list_config)) = Inl AttributeError
   \<and> filter is_deploy_entry
        (calls (snd (deploy_to_multiple_platforms (sample_env True True True True)
                       [''render'', ''railway''] True (sample_deployer list_config))))
       = [DeployEntered ''render'' True]"
  by (simp add: eval_defs list_config_def deploy_to_multiple_platforms_def is_deploy_entry_def)

lemma initialize_deployer_frame:
  "config (snd (initialize_deployer platform s)) = config s
   \<and> calls (snd (initialize_deployer platform s)) = calls s"
  by (simp add: initialize_deployer_def Let_def split: option.splits)

lemma validate_deployment_config:
  "config (snd (validate_deployment env platform s)) = config s"
  by (auto simp: validate_deployment_def initialize_deployer_def collaborate_snd Let_def split_beta
        split: sum.splits prod.splits option.splits if_splits)

lemma validate_deployment_entries:
  "filter is_deploy_entry (calls (snd (validate_deployment env platform s)))
     = filter is_deploy_entry (calls s)"
  using validate_deployment_calls [of env platform s]
  by (auto simp: list_ex_iff filter_empty_conv)

lemma validate_deployment_returns:
  "validate (config s) = Inr v \<Longrightarrow> \<exists>b. fst (validate_deployment env platform s) = Inr b"
  by (cases v)
     (auto simp: validate_deployment_def Let_def split_beta split: option.splits prod.splits)

text \<open>\<open>deploy\<close>, by the states it passes through.\<close>

lemma deploy_cases:
  "deploy env platform run_migr s =
     (if \<not> fst (fst (run_system_checks env (s\<lparr>calls := calls s @ [DeployEntered platform run_migr]\<rparr>)))
      then (Inr False, after_gate env platform run_migr s)
      else (case fst (validate_deployment env platform (after_gate env platform run_migr s)) of
              Inl e \<Rightarrow> (Inl e, after_validation env platform run_migr s)
            | Inr False \<Rightarrow> (Inr False, after_validation env platform run_migr s)
            | Inr True \<Rightarrow>
                (let s3 = after_migrations env platform run_migr s;
                     r = (case map_of (deployers s3) (lower platform) of
                            Some d \<Rightarrow> (Some d, s3)
                          | None \<Rightarrow> initialize_deployer platform s3)
                 in case fst r of
                      None \<Rightarrow> (Inr False, snd r)
                    | Some d \<Rightarrow>
                        (let c = collaborate (deployer_deploy env (fst d) (snd d))
                                   (PlatformDeployRun (fst d)) (snd r)
                         in if \<not> fst c then (Inr False, snd c)
                            else (Inr True,
                                  snd (request_checkpoint env platform
                                         (deploy_metadata run_migr (snd c)) (snd c)))))))"
  by (simp add: deploy_def after_gate_def after_validation_def after_migrations_def Let_def split_beta
        split: sum.splits bool.splits option.splits prod.splits)

lemma after_gate_frame:
  "config (after_gate env platform run_migr s) = config s
   \<and> filter is_deploy_entry (calls (after_gate env platform run_migr s))
       = filter is_deploy_entry (calls s) @ [DeployEntered platform run_migr]"
  by (simp add: after_gate_def run_system_checks_snd is_deploy_entry_def)

lemma after_validation_frame:
  "config (after_validation env platform run_migr s) = config s
   \<and> filter is_deploy_entry (calls (after_validation env platform run_migr s))
       = filter is_deploy_entry (calls s) @ [DeployEntered platform run_migr]"
  by (simp add: after_validation_def validate_deployment_config validate_deployment_entries
        after_gate_frame)

lemma after_migrations_frame:
  "config (after_migrations env platform run_migr s) = config s
   \<and> filter is_deploy_entry (calls (after_migrations env platform run_migr s))
       = filter is_deploy_entry (calls s) @ [DeployEntered platform run_migr]"
  by (simp add: after_migrations_def collaborate_snd after_validation_frame is_deploy_entry_def)

lemma deploy_frame:
  "config (snd (deploy env platform run_migr s)) = config s
   \<and> filter is_deploy_entry (calls (snd (deploy env platform run_migr s)))
       = filter is_deploy_entry (calls s) @ [DeployEntered platform run_migr]"
  unfolding deploy_cases
  by (auto simp: after_gate_frame after_validation_frame after_migrations_frame
        initialize_deployer_frame collaborate_snd request_checkpoint_def split_beta Let_def
        is_deploy_entry_def
        split: sum.splits bool.splits option.splits)

lemma deploy_returns:
  assumes "validate (config s) = Inr v"
  shows "\<exists>b. fst (deploy env platform run_migr s) = Inr b"
proof -
  have "validate (config (after_gate env platform run_migr s)) = Inr v"
    using assms by (simp add: after_gate_frame)
  then obtain b where "fst (validate_deployment env platform (after_gate env platform run_migr s)) = Inr b"
    using validate_deployment_returns by blast
  then show ?thesis
    unfolding deploy_cases
    by (auto simp: Let_def split: option.splits bool.splits)
qed

text \<open>
  Where the configuration validator returns, \<open>deploy_to_multiple_platforms\<close> enters
  \<open>deploy\<close> once per platform, in list order, whatever the outcomes, and returns a map
  whose keys are the platforms.
\<close>

lemma deploy_each_sequential:
  assumes "validate (config s) = Inr v"
  shows "\<exists>results. fst (deploy_each env platforms run_migr acc s) = Inr results
           \<and> fst ` set results = fst ` set acc \<union> set platforms
           \<and> filter is_deploy_entry (calls (snd (deploy_each env platforms run_migr acc s)))
               = filter is_deploy_entry (calls s) @ map (\<lambda>p. DeployEntered p run_migr) platforms"
  using assms
proof (induction platforms arbitrary: acc s)
  case Nil
  then show ?case by simp
next
  case (Cons p ps)
  obtain b where b: "fst (deploy env p run_migr s) = Inr b"
    using deploy_returns [OF Cons.prems] by blast
  let ?s1 = "snd (deploy env p run_migr s)"
  have v1: "validate (config ?s1) = Inr v"
    using Cons.prems by (simp add: deploy_frame)
  have step: "deploy_each env (p # ps) run_migr acc s
                = deploy_each env ps run_migr (dict_setitem acc p b) ?s1"
    using b by (cases "deploy env p run_migr s") simp
  show ?case
    unfolding step
    using Cons.IH [OF v1, of "dict_setitem acc p b"]
    by (auto simp: deploy_frame dict_setitem_keys)
qed

lemma deploy_each_snoc:
  "deploy_each env (platforms @ [p]) run_migr acc s =
     (case deploy_each env platforms run_migr acc s of
        (Inl e, s1) \<Rightarrow> (Inl e, s1)
      | (Inr results, s1) \<Rightarrow>
          (case deploy env p run_migr s1 of
             (Inl e, s2) \<Rightarrow> (Inl e, s2)
           | (Inr outcome, s2) \<Rightarrow> (Inr (dict_setitem results p outcome), s2)))"
  by (induction platforms arbitrary: acc s) (auto split: sum.splits prod.splits)

end
